theory Spec2Isabelle
  imports Main "HOL-Library.Multiset"
begin

section \<open>JavaScript values\<close>

text \<open>
  The fields of a configuration entry and of a project are JavaScript values read from
  YAML: absent (\<open>undefined\<close>), \<open>null\<close>, or a string. Only a non-empty string is truthy.
\<close>

datatype jsval = JUndefined | JNull | JStr string

fun truthy :: "jsval \<Rightarrow> bool" where
  "truthy (JStr s) = (s \<noteq> [])"
| "truthy JNull = False"
| "truthy JUndefined = False"

text \<open>\<open>a || b\<close>\<close>

definition js_or :: "jsval \<Rightarrow> jsval \<Rightarrow> jsval" where
  "js_or a b = (if truthy a then a else b)"

text \<open>String conversion, as a template literal or a string argument applies it.\<close>

fun toString :: "jsval \<Rightarrow> string" where
  "toString (JStr s) = s"
| "toString JNull = ''null''"
| "toString JUndefined = ''undefined''"

datatype js_error = TypeError | FetchError | HttpError nat | YamlError

section \<open>Data\<close>

text \<open>A repository object of the GitHub API (the fields the code reads).\<close>

record repo =
  r_name :: string
  r_description :: jsval
  r_html_url :: string
  r_has_pages :: bool

text \<open>An entry of \<open>projects\<close> in projects.yaml, raw or normalized.\<close>

record entry =
  e_repo :: jsval
  e_name :: jsval
  e_description :: jsval
  e_url :: jsval
  e_repoUrl :: jsval
  e_thumbnail :: jsval
  e_order :: jsval

text \<open>The project objects handed to the presentation layer.\<close>

record project =
  name :: jsval
  description :: jsval
  url :: jsval
  repoUrl :: jsval
  thumbnail :: jsval
  isAutoDiscovered :: bool

text \<open>The parsed YAML document: every top-level key may be absent.\<close>

record raw_config =
  raw_username :: jsval
  raw_exclude :: "string list option"
  raw_order :: "string list option"
  raw_projects :: "entry list option"

record config =
  username :: string
  exclude :: "string list"
  order :: "string list"
  projects :: "entry list"

section \<open>config.js\<close>

definition normalizeProject :: "entry \<Rightarrow> entry" where
  "normalizeProject p =
     \<lparr> e_repo = js_or (e_repo p) JNull,
       e_name = js_or (js_or (e_name p) (e_repo p)) (JStr ''Untitled''),
       e_description = js_or (e_description p) JNull,
       e_url = js_or (e_url p) JNull,
       e_repoUrl = (if e_repoUrl p \<noteq> JUndefined then e_repoUrl p else JNull),
       e_thumbnail = js_or (e_thumbnail p) JNull,
       e_order = js_or (e_order p) JNull \<rparr>"

text \<open>The empty object that stands in for an empty YAML document.\<close>

definition empty_raw :: raw_config where
  "empty_raw = \<lparr> raw_username = JUndefined, raw_exclude = None, raw_order = None,
                 raw_projects = None \<rparr>"

definition default_config :: config where
  "default_config = \<lparr> username = ''darrenmcewan'', exclude = [], order = [], projects = [] \<rparr>"

text \<open>The normalization of the parsed document with defaults.\<close>

definition normalizeConfig :: "raw_config \<Rightarrow> config" where
  "normalizeConfig c =
     \<lparr> username = toString (js_or (raw_username c) (JStr [])),
       exclude = (case raw_exclude c of Some xs \<Rightarrow> xs | None \<Rightarrow> []),
       order = (case raw_order c of Some xs \<Rightarrow> xs | None \<Rightarrow> []),
       projects = map normalizeProject (case raw_projects c of Some ps \<Rightarrow> ps | None \<Rightarrow> []) \<rparr>"

text \<open>
  What the outside world answers to \<open>load\<close>: the fetch of projects.yaml rejects, or
  gives a response with its \<open>ok\<close> flag and status; the YAML parser throws on the
  response text or returns a document (\<open>None\<close> for an empty one).
\<close>

datatype yaml_result = YamlThrows | YamlValue "raw_config option"

datatype fetch_result = FetchRejects | FetchResponse bool nat yaml_result

text \<open>The body of the \<open>try\<close> block of \<open>load\<close>.\<close>

fun load_try :: "fetch_result \<Rightarrow> js_error + config" where
  "load_try FetchRejects = Inl FetchError"
| "load_try (FetchResponse ok status body) =
     (if \<not> ok then Inl (HttpError status)
      else case body of
             YamlThrows \<Rightarrow> Inl YamlError
           | YamlValue doc \<Rightarrow>
               Inr (normalizeConfig (case doc of Some c \<Rightarrow> c | None \<Rightarrow> empty_raw)))"

text \<open>
  \<open>load\<close> on the module's state (the memoized \<open>config\<close>, \<open>None\<close> for \<open>null\<close>): the
  returned configuration and the new state.
\<close>

definition load :: "config option \<Rightarrow> fetch_result \<Rightarrow> config \<times> config option" where
  "load st fr =
     (case st of
        Some c \<Rightarrow> (c, Some c)
      | None \<Rightarrow>
          (case load_try fr of
             Inr c \<Rightarrow> (c, Some c)
           | Inl e \<Rightarrow> (default_config, Some default_config)))"

definition getUsername :: "config option \<Rightarrow> string" where
  "getUsername st =
     (case st of
        None \<Rightarrow> ''darrenmcewan''
      | Some c \<Rightarrow> (if username c \<noteq> [] then username c else ''darrenmcewan''))"

definition getExcluded :: "config option \<Rightarrow> string list" where
  "getExcluded st = (case st of None \<Rightarrow> [] | Some c \<Rightarrow> exclude c)"

definition getOrder :: "config option \<Rightarrow> string list" where
  "getOrder st = (case st of None \<Rightarrow> [] | Some c \<Rightarrow> order c)"

definition Config_getProjects :: "config option \<Rightarrow> entry list" where
  "Config_getProjects st = (case st of None \<Rightarrow> [] | Some c \<Rightarrow> projects c)"

definition getProjectOverride :: "config option \<Rightarrow> string \<Rightarrow> entry option" where
  "getProjectOverride st repoName =
     find (\<lambda>p. e_repo p = JStr repoName) (Config_getProjects st)"

definition getManualProjects :: "config option \<Rightarrow> entry list" where
  "getManualProjects st = filter (\<lambda>p. truthy (e_url p)) (Config_getProjects st)"

definition getReposWithCustomUrls :: "config option \<Rightarrow> jsval list" where
  "getReposWithCustomUrls st =
     map e_repo (filter (\<lambda>p. truthy (e_url p) \<and> truthy (e_repo p)) (Config_getProjects st))"

section \<open>api.js\<close>

definition filterPagesEnabled :: "repo list \<Rightarrow> repo list" where
  "filterPagesEnabled repos = filter r_has_pages repos"

definition transformRepo :: "repo \<Rightarrow> string \<Rightarrow> project" where
  "transformRepo r user =
     \<lparr> name = JStr (r_name r),
       description = js_or (r_description r) (JStr []),
       url = JStr (''https://'' @ user @ ''.github.io/'' @ r_name r @ ''/''),
       repoUrl = JStr (r_html_url r),
       thumbnail = JNull,
       isAutoDiscovered = True \<rparr>"

text \<open>The object spread of \<open>mergeWithConfig\<close> that applies an override to a project.\<close>

definition applyOverride :: "entry \<Rightarrow> project \<Rightarrow> project" where
  "applyOverride ov p =
     p\<lparr> name := js_or (e_name ov) (name p),
        description := js_or (e_description ov) (description p),
        url := js_or (e_url ov) (url p),
        thumbnail := js_or (e_thumbnail ov) (thumbnail p) \<rparr>"

text \<open>The \<open>filter\<close> predicate on the repositories in \<open>mergeWithConfig\<close>.\<close>

definition keptRepo :: "config option \<Rightarrow> repo \<Rightarrow> bool" where
  "keptRepo st r =
     (r_name r \<notin> set (getExcluded st) \<and> JStr (r_name r) \<notin> set (getReposWithCustomUrls st))"

text \<open>The \<open>map\<close> callback on the repositories in \<open>mergeWithConfig\<close>.\<close>

definition autoProject :: "config option \<Rightarrow> string \<Rightarrow> repo \<Rightarrow> project" where
  "autoProject st user r =
     (let p = transformRepo r user in
      case getProjectOverride st (r_name r) of
        Some ov \<Rightarrow> applyOverride ov p
      | None \<Rightarrow> p)"

definition autoProjects :: "config option \<Rightarrow> string \<Rightarrow> repo list \<Rightarrow> project list" where
  "autoProjects st user repos = map (autoProject st user) (filter (keptRepo st) repos)"

text \<open>The \<open>map\<close> callback on the manual entries in \<open>mergeWithConfig\<close>.\<close>

definition manualProject :: "string \<Rightarrow> entry \<Rightarrow> project" where
  "manualProject user p =
     \<lparr> name = js_or (e_name p) (e_repo p),
       description = js_or (e_description p) (JStr []),
       url = e_url p,
       repoUrl = (if e_repoUrl p \<noteq> JUndefined then e_repoUrl p
                  else if truthy (e_repo p)
                       then JStr (''https://github.com/'' @ user @ ''/'' @ toString (e_repo p))
                       else JNull),
       thumbnail = e_thumbnail p,
       isAutoDiscovered = False \<rparr>"

definition manualProjects :: "config option \<Rightarrow> string \<Rightarrow> project list" where
  "manualProjects st user = map (manualProject user) (getManualProjects st)"

text \<open>\<open>order.indexOf(x)\<close>: the first index of \<open>x\<close>, or \<open>-1\<close>.\<close>

fun indexOf :: "string list \<Rightarrow> string \<Rightarrow> int" where
  "indexOf [] x = - 1"
| "indexOf (y # ys) x =
     (if y = x then 0 else (let i = indexOf ys x in if i = - 1 then - 1 else i + 1))"

text \<open>\<open>indexOf\<close> compares with strict equality: a value that is not a string is not found.\<close>

fun indexOfVal :: "string list \<Rightarrow> jsval \<Rightarrow> int" where
  "indexOfVal xs (JStr s) = indexOf xs s"
| "indexOfVal xs JNull = - 1"
| "indexOfVal xs JUndefined = - 1"

text \<open>
  \<open>a.localeCompare(b)\<close>. The collation is the platform's: it is the parameter \<open>lc\<close>.
  The call throws when the receiver is \<open>null\<close> or \<open>undefined\<close>; the argument is
  converted to a string.
\<close>

fun localeCompare :: "(string \<Rightarrow> string \<Rightarrow> int) \<Rightarrow> jsval \<Rightarrow> jsval \<Rightarrow> js_error + int" where
  "localeCompare lc (JStr s) b = Inr (lc s (toString b))"
| "localeCompare lc JNull b = Inl TypeError"
| "localeCompare lc JUndefined b = Inl TypeError"

text \<open>The comparator of the custom ordering.\<close>

definition compareOrdered ::
  "(string \<Rightarrow> string \<Rightarrow> int) \<Rightarrow> string list \<Rightarrow> project \<Rightarrow> project \<Rightarrow> js_error + int" where
  "compareOrdered lc ord a b =
     (let aIndex = indexOfVal ord (name a); bIndex = indexOfVal ord (name b) in
      if aIndex \<noteq> - 1 \<and> bIndex \<noteq> - 1 then Inr (aIndex - bIndex)
      else if aIndex \<noteq> - 1 then Inr (- 1)
      else if bIndex \<noteq> - 1 then Inr 1
      else localeCompare lc (name a) (name b))"

text \<open>The comparator of the default alphabetical sort.\<close>

definition compareAlpha ::
  "(string \<Rightarrow> string \<Rightarrow> int) \<Rightarrow> project \<Rightarrow> project \<Rightarrow> js_error + int" where
  "compareAlpha lc a b = localeCompare lc (name a) (name b)"

text \<open>
  \<open>Array.prototype.sort\<close> with a comparator: a stable sort, here by insertion. An
  exception of the comparator ends the sort.
\<close>

fun insertBy :: "('a \<Rightarrow> 'a \<Rightarrow> js_error + int) \<Rightarrow> 'a \<Rightarrow> 'a list \<Rightarrow> js_error + 'a list" where
  "insertBy c x [] = Inr [x]"
| "insertBy c x (y # ys) =
     (case c x y of
        Inl e \<Rightarrow> Inl e
      | Inr k \<Rightarrow>
          if k \<le> 0 then Inr (x # y # ys)
          else (case insertBy c x ys of Inl e \<Rightarrow> Inl e | Inr zs \<Rightarrow> Inr (y # zs)))"

fun sortBy :: "('a \<Rightarrow> 'a \<Rightarrow> js_error + int) \<Rightarrow> 'a list \<Rightarrow> js_error + 'a list" where
  "sortBy c [] = Inr []"
| "sortBy c (x # xs) =
     (case sortBy c xs of Inl e \<Rightarrow> Inl e | Inr ys \<Rightarrow> insertBy c x ys)"

definition mergeWithConfig ::
  "(string \<Rightarrow> string \<Rightarrow> int) \<Rightarrow> config option \<Rightarrow> repo list \<Rightarrow> string \<Rightarrow> js_error + project list" where
  "mergeWithConfig lc st repos user =
     (let ord = getOrder st;
          ps = autoProjects st user repos @ manualProjects st user
      in if length ord > 0 then sortBy (compareOrdered lc ord) ps
         else sortBy (compareAlpha lc) ps)"

text \<open>
  The projects that \<open>getProjects\<close> returns, from the state of the configuration module
  and the answer of the repository request: the repositories, or the error that the
  function throws on (the profile of the result is left out).
\<close>

definition getProjects ::
  "(string \<Rightarrow> string \<Rightarrow> int) \<Rightarrow> config option \<Rightarrow> js_error + repo list \<Rightarrow> js_error + project list" where
  "getProjects lc st fetched =
     (let user = getUsername st in
      case fetched of
        Inl e \<Rightarrow> Inl e
      | Inr repos \<Rightarrow> mergeWithConfig lc st (filterPagesEnabled repos) user)"

text \<open>The \<open>map\<close> callback of \<open>getManualProjectsOnly\<close>.\<close>

definition fallbackProject :: "string \<Rightarrow> entry \<Rightarrow> project" where
  "fallbackProject user p =
     \<lparr> name = js_or (js_or (e_name p) (e_repo p)) (JStr ''Untitled''),
       description = js_or (e_description p) (JStr []),
       url = js_or (e_url p)
               (if truthy (e_repo p)
                then JStr (''https://'' @ user @ ''.github.io/'' @ toString (e_repo p) @ ''/'')
                else JStr ''#''),
       repoUrl = (if e_repoUrl p \<noteq> JNull then e_repoUrl p
                  else if truthy (e_repo p)
                       then JStr (''https://github.com/'' @ user @ ''/'' @ toString (e_repo p))
                       else JNull),
       thumbnail = e_thumbnail p,
       isAutoDiscovered = False \<rparr>"

text \<open>The projects that \<open>getManualProjectsOnly\<close> returns.\<close>

definition getManualProjectsOnly ::
  "(string \<Rightarrow> string \<Rightarrow> int) \<Rightarrow> config option \<Rightarrow> js_error + project list" where
  "getManualProjectsOnly lc st =
     (let user = getUsername st;
          ps = map (fallbackProject user) (Config_getProjects st)
      in sortBy (compareOrdered lc (getOrder st)) ps)"

text \<open>The state of the configuration module after the first \<open>load\<close>.\<close>

definition loaded :: "fetch_result \<Rightarrow> config option" where
  "loaded fr = snd (load None fr)"

text \<open>A concrete collation to run the code with: comparison by code units.\<close>

fun codeUnitCompare :: "string \<Rightarrow> string \<Rightarrow> int" where
  "codeUnitCompare [] [] = 0"
| "codeUnitCompare [] (y # ys) = - 1"
| "codeUnitCompare (x # xs) [] = 1"
| "codeUnitCompare (x # xs) (y # ys) =
     (if (of_char x :: nat) < of_char y then - 1
      else if (of_char y :: nat) < of_char x then 1
      else codeUnitCompare xs ys)"

section \<open>Sample inputs\<close>

text \<open>An entry of projects.yaml with the keys \<open>repo\<close>, \<open>name\<close>, \<open>description\<close>, \<open>url\<close>
  and \<open>repoUrl\<close> (the other keys absent).\<close>

definition yamlEntry :: "jsval \<Rightarrow> jsval \<Rightarrow> jsval \<Rightarrow> jsval \<Rightarrow> jsval \<Rightarrow> entry" where
  "yamlEntry r n d u ru =
     \<lparr> e_repo = r, e_name = n, e_description = d, e_url = u, e_repoUrl = ru,
       e_thumbnail = JUndefined, e_order = JUndefined \<rparr>"

text \<open>A projects.yaml that is fetched and parsed without error.\<close>

definition yamlFile :: "string \<Rightarrow> string list \<Rightarrow> string list \<Rightarrow> entry list \<Rightarrow> fetch_result" where
  "yamlFile user excl ord es =
     FetchResponse True 200
       (YamlValue (Some \<lparr> raw_username = JStr user, raw_exclude = Some excl,
                           raw_order = Some ord, raw_projects = Some es \<rparr>))"

text \<open>A repository of the account \<open>alice\<close>.\<close>

definition aliceRepo :: "string \<Rightarrow> bool \<Rightarrow> repo" where
  "aliceRepo n pages =
     \<lparr> r_name = n, r_description = JStr ''orig'',
       r_html_url = ''https://github.com/alice/'' @ n, r_has_pages = pages \<rparr>"

section \<open>Auxiliary facts\<close>

lemma truthy_JStr: "truthy v \<Longrightarrow> \<exists>s. v = JStr s \<and> s \<noteq> []"
  by (cases v) simp_all

lemma insertBy_mset: "insertBy c x ys = Inr zs \<Longrightarrow> mset zs = add_mset x (mset ys)"
proof (induction ys arbitrary: zs)
  case Nil
  then show ?case by auto
next
  case (Cons y ys)
  then show ?case by (auto split: sum.splits if_splits)
qed

lemma sortBy_mset: "sortBy c xs = Inr ys \<Longrightarrow> mset ys = mset xs"
proof (induction xs arbitrary: ys)
  case Nil
  then show ?case by simp
next
  case (Cons x xs)
  then show ?case by (auto split: sum.splits dest: insertBy_mset)
qed

lemma insertBy_defined:
  "\<forall>y\<in>set ys. \<exists>k. c x y = Inr k \<Longrightarrow> \<exists>zs. insertBy c x ys = Inr zs"
  by (induction ys) (auto split: sum.splits)

lemma sortBy_defined:
  "\<forall>x\<in>set xs. \<forall>y\<in>set xs. \<exists>k. c x y = Inr k \<Longrightarrow> \<exists>ys. sortBy c xs = Inr ys"
proof (induction xs)
  case Nil
  then show ?case by simp
next
  case (Cons x xs)
  then obtain ys where ys: "sortBy c xs = Inr ys" by auto
  then have "set ys = set xs" using sortBy_mset[of c xs ys] mset_eq_setD[of ys xs] by simp
  with Cons.prems have "\<forall>y\<in>set ys. \<exists>k. c x y = Inr k" by simp
  then show ?case using ys insertBy_defined[of ys c x] by simp
qed

lemma insertBy_set: "insertBy c x ys = Inr zs \<Longrightarrow> set zs = insert x (set ys)"
  using insertBy_mset[of c x ys zs] mset_eq_setD[of zs "x # ys"] by simp

lemma sortBy_set: "sortBy c xs = Inr ys \<Longrightarrow> set ys = set xs"
  using sortBy_mset[of c xs ys] mset_eq_setD[of ys xs] by simp

lemma insertBy_sorted:
  assumes ins: "insertBy c x ys = Inr zs"
    and srt: "sorted_wrt R ys"
    and tot: "\<And>y k. y \<in> set ys \<Longrightarrow> c x y = Inr k \<Longrightarrow> (k \<le> 0 \<longrightarrow> R x y) \<and> (0 < k \<longrightarrow> R y x)"
    and tr: "\<And>y z. y \<in> set ys \<Longrightarrow> z \<in> set ys \<Longrightarrow> R x y \<Longrightarrow> R y z \<Longrightarrow> R x z"
  shows "sorted_wrt R zs"
  using ins srt tot tr
proof (induction ys arbitrary: zs)
  case Nil
  then show ?case by auto
next
  case (Cons y ys)
  obtain k where k: "c x y = Inr k" using Cons.prems(1) by (auto split: sum.splits)
  have srt': "sorted_wrt R ys" and yall: "\<forall>z\<in>set ys. R y z" using Cons.prems(2) by simp_all
  show ?case
  proof (cases "k \<le> 0")
    case True
    then have zs: "zs = x # y # ys" using Cons.prems(1) k by simp
    have "(k \<le> 0 \<longrightarrow> R x y) \<and> (0 < k \<longrightarrow> R y x)" by (rule Cons.prems(3)) (simp_all add: k)
    then have xy: "R x y" using True by simp
    have "\<forall>z\<in>set ys. R x z"
    proof
      fix z assume z: "z \<in> set ys"
      then have "R y z" using yall by simp
      then show "R x z" by (rule Cons.prems(4)[of y z, rotated 3]) (simp_all add: z xy)
    qed
    then show ?thesis using zs xy Cons.prems(2) by simp
  next
    case False
    then obtain zs' where zs': "insertBy c x ys = Inr zs'" and zs: "zs = y # zs'"
      using Cons.prems(1) k by (auto split: sum.splits)
    have "(k \<le> 0 \<longrightarrow> R x y) \<and> (0 < k \<longrightarrow> R y x)" by (rule Cons.prems(3)) (simp_all add: k)
    then have yx: "R y x" using False by simp
    have tot': "\<And>y k. y \<in> set ys \<Longrightarrow> c x y = Inr k \<Longrightarrow> (k \<le> 0 \<longrightarrow> R x y) \<and> (0 < k \<longrightarrow> R y x)"
      by (rule Cons.prems(3)) simp_all
    have tr': "\<And>y z. y \<in> set ys \<Longrightarrow> z \<in> set ys \<Longrightarrow> R x y \<Longrightarrow> R y z \<Longrightarrow> R x z"
      by (rule Cons.prems(4)) simp_all
    have s: "sorted_wrt R zs'"
      by (rule Cons.IH[OF zs' srt' tot' tr'])
    have "set zs' = insert x (set ys)" by (rule insertBy_set[OF zs'])
    then show ?thesis using zs s yx yall by simp
  qed
qed

lemma sortBy_sorted:
  assumes srt: "sortBy c xs = Inr ys"
    and tot: "\<And>x y k. x \<in> set xs \<Longrightarrow> y \<in> set xs \<Longrightarrow> c x y = Inr k \<Longrightarrow> (k \<le> 0 \<longrightarrow> R x y) \<and> (0 < k \<longrightarrow> R y x)"
    and tr: "\<And>x y z. x \<in> set xs \<Longrightarrow> y \<in> set xs \<Longrightarrow> z \<in> set xs \<Longrightarrow> R x y \<Longrightarrow> R y z \<Longrightarrow> R x z"
  shows "sorted_wrt R ys"
  using srt tot tr
proof (induction xs arbitrary: ys)
  case Nil
  from Nil.prems(1) show ?case by simp
next
  case (Cons x xs)
  obtain ys' where ys': "sortBy c xs = Inr ys'" and ins: "insertBy c x ys' = Inr ys"
    using Cons.prems(1) by (auto split: sum.splits)
  have set: "set ys' = set xs" by (rule sortBy_set[OF ys'])
  have tot': "\<And>a b k. a \<in> set xs \<Longrightarrow> b \<in> set xs \<Longrightarrow> c a b = Inr k \<Longrightarrow> (k \<le> 0 \<longrightarrow> R a b) \<and> (0 < k \<longrightarrow> R b a)"
    by (rule Cons.prems(2)) simp_all
  have tr': "\<And>a b d. a \<in> set xs \<Longrightarrow> b \<in> set xs \<Longrightarrow> d \<in> set xs \<Longrightarrow> R a b \<Longrightarrow> R b d \<Longrightarrow> R a d"
    by (rule Cons.prems(3)) simp_all
  have s: "sorted_wrt R ys'"
    by (rule Cons.IH[OF ys' tot' tr'])
  have t1: "\<And>y k. y \<in> set ys' \<Longrightarrow> c x y = Inr k \<Longrightarrow> (k \<le> 0 \<longrightarrow> R x y) \<and> (0 < k \<longrightarrow> R y x)"
    by (rule Cons.prems(2)) (simp_all add: set)
  have t2: "\<And>y z. y \<in> set ys' \<Longrightarrow> z \<in> set ys' \<Longrightarrow> R x y \<Longrightarrow> R y z \<Longrightarrow> R x z"
    by (rule Cons.prems(3)) (simp_all add: set)
  show ?case
    by (rule insertBy_sorted[OF ins s t1 t2])
qed

lemma loaded_cases:
  "loaded fr = Some default_config \<or> (\<exists>raw. loaded fr = Some (normalizeConfig raw))"
proof (cases fr)
  case FetchRejects
  then show ?thesis by (simp add: loaded_def load_def)
next
  case (FetchResponse ok status body)
  then show ?thesis
    by (cases body) (auto simp: loaded_def load_def)
qed

lemma loaded_entries:
  assumes "e \<in> set (Config_getProjects (loaded fr))"
  shows "\<exists>p. e = normalizeProject p"
  using loaded_cases[of fr] assms
  by (auto simp: Config_getProjects_def default_config_def normalizeConfig_def)

lemmas eval_defs = loaded_def load_def yamlFile_def yamlEntry_def aliceRepo_def normalizeConfig_def
  normalizeProject_def js_or_def getUsername_def getOrder_def Config_getProjects_def getExcluded_def
  getManualProjects_def getReposWithCustomUrls_def getProjectOverride_def
  filterPagesEnabled_def transformRepo_def applyOverride_def keptRepo_def autoProject_def
  autoProjects_def manualProject_def manualProjects_def compareOrdered_def compareAlpha_def
  mergeWithConfig_def getProjects_def fallbackProject_def getManualProjectsOnly_def
  default_config_def empty_raw_def Let_def


lemma find_first_match:
  assumes "\<forall>p\<in>set pre. \<not> P p" and "P e"
  shows "find P (pre @ e # post) = Some e"
  using assms by (induction pre) simp_all


lemma autoProject_eq:
  "autoProject st user r =
     (case getProjectOverride st (r_name r) of
        Some ov \<Rightarrow> applyOverride ov (transformRepo r user)
      | None \<Rightarrow> transformRepo r user)"
  by (simp add: autoProject_def Let_def)

lemma autoProject_flag: "isAutoDiscovered (autoProject st user r)"
  by (simp add: autoProject_eq transformRepo_def applyOverride_def split: option.splits)

lemma manualProject_flag: "\<not> isAutoDiscovered (manualProject user e)"
  by (simp add: manualProject_def)

lemma autoProject_name: "\<exists>s. name (autoProject st user r) = JStr s"
proof (cases "getProjectOverride st (r_name r)")
  case None
  then show ?thesis by (simp add: autoProject_eq transformRepo_def)
next
  case (Some ov)
  show ?thesis
  proof (cases "truthy (e_name ov)")
    case True
    then obtain s where "e_name ov = JStr s" using truthy_JStr by blast
    then show ?thesis using Some True
      by (simp add: autoProject_eq transformRepo_def applyOverride_def js_or_def)
  next
    case False
    then show ?thesis using Some
      by (simp add: autoProject_eq transformRepo_def applyOverride_def js_or_def)
  qed
qed

lemma normalizeProject_name: "\<exists>s. e_name (normalizeProject p) = JStr s \<and> s \<noteq> []"
proof (cases "truthy (e_name p)")
  case True
  then show ?thesis using truthy_JStr[of "e_name p"] by (simp add: normalizeProject_def js_or_def)
next
  case False
  then show ?thesis using truthy_JStr[of "e_repo p"]
    by (cases "truthy (e_repo p)") (simp_all add: normalizeProject_def js_or_def)
qed

lemma manualProject_name: "\<exists>s. name (manualProject user (normalizeProject p)) = JStr s"
proof -
  obtain s where "e_name (normalizeProject p) = JStr s" "s \<noteq> []"
    using normalizeProject_name by blast
  then show ?thesis by (simp add: manualProject_def js_or_def)
qed

lemma compareOrdered_defined:
  "name a = JStr s \<Longrightarrow> \<exists>k. compareOrdered lc ord a b = Inr k"
  by (simp add: compareOrdered_def Let_def)

lemma compareAlpha_defined:
  "name a = JStr s \<Longrightarrow> \<exists>k. compareAlpha lc a b = Inr k"
  by (simp add: compareAlpha_def)

lemma merged_names:
  assumes "p \<in> set (autoProjects (loaded fr) user repos @ manualProjects (loaded fr) user)"
  shows "\<exists>s. name p = JStr s"
proof -
  from assms consider
      r where "p = autoProject (loaded fr) user r"
    | e where "e \<in> set (Config_getProjects (loaded fr))" "p = manualProject user e"
    by (auto simp: autoProjects_def manualProjects_def getManualProjects_def)
  then show ?thesis
  proof cases
    case 1
    then show ?thesis using autoProject_name by simp
  next
    case 2
    then obtain q where "e = normalizeProject q" using loaded_entries by blast
    then show ?thesis using 2 manualProject_name by simp
  qed
qed

lemma mergeWithConfig_defined:
  "\<exists>out. mergeWithConfig lc (loaded fr) repos user = Inr out"
proof -
  let ?ps = "autoProjects (loaded fr) user repos @ manualProjects (loaded fr) user"
  have a: "\<forall>x\<in>set ?ps. \<forall>y\<in>set ?ps. \<exists>k. compareOrdered lc (getOrder (loaded fr)) x y = Inr k"
    using merged_names[of _ fr user repos] compareOrdered_defined by blast
  have b: "\<forall>x\<in>set ?ps. \<forall>y\<in>set ?ps. \<exists>k. compareAlpha lc x y = Inr k"
    using merged_names[of _ fr user repos] compareAlpha_defined by blast
  show ?thesis
    using sortBy_defined[OF a] sortBy_defined[OF b]
    by (simp add: mergeWithConfig_def Let_def)
qed

lemma mergeWithConfig_mset:
  assumes "mergeWithConfig lc st repos user = Inr out"
  shows "mset out = mset (autoProjects st user repos) + mset (manualProjects st user)"
proof (cases "length (getOrder st) > 0")
  case True
  then have "sortBy (compareOrdered lc (getOrder st))
               (autoProjects st user repos @ manualProjects st user) = Inr out"
    using assms by (simp add: mergeWithConfig_def Let_def)
  from sortBy_mset[OF this] show ?thesis by simp
next
  case False
  then have "sortBy (compareAlpha lc)
               (autoProjects st user repos @ manualProjects st user) = Inr out"
    using assms by (simp add: mergeWithConfig_def Let_def)
  from sortBy_mset[OF this] show ?thesis by simp
qed

lemma merged_auto_part:
  assumes "mergeWithConfig lc st repos user = Inr out"
  shows "mset (filter isAutoDiscovered out) = mset (autoProjects st user repos)"
proof -
  have a: "filter isAutoDiscovered (autoProjects st user repos) = autoProjects st user repos"
    by (rule filter_True) (auto simp: autoProjects_def autoProject_flag)
  have b: "filter isAutoDiscovered (manualProjects st user) = []"
    by (rule filter_False) (auto simp: manualProjects_def manualProject_flag)
  have "mset (filter isAutoDiscovered out) = filter_mset isAutoDiscovered (mset out)"
    by simp
  also have "\<dots> = mset (filter isAutoDiscovered (autoProjects st user repos))
                  + mset (filter isAutoDiscovered (manualProjects st user))"
    using mergeWithConfig_mset[OF assms] by simp
  finally show ?thesis using a b by simp
qed

lemma normalizeProject_url:
  "truthy (e_url (normalizeProject p)) = (e_url (normalizeProject p) \<noteq> JNull)"
  by (cases "e_url p") (simp_all add: normalizeProject_def js_or_def)

lemma normalizeProject_repo:
  "e_repo (normalizeProject p) = JStr n \<Longrightarrow> truthy (e_repo (normalizeProject p))"
  by (cases "e_repo p") (simp_all add: normalizeProject_def js_or_def split: if_splits)

lemma loaded_url:
  "e \<in> set (Config_getProjects (loaded fr)) \<Longrightarrow> truthy (e_url e) = (e_url e \<noteq> JNull)"
  using loaded_entries[of e fr] normalizeProject_url by auto

lemma loaded_repo:
  "e \<in> set (Config_getProjects (loaded fr)) \<Longrightarrow> e_repo e = JStr n \<Longrightarrow> truthy (e_repo e)"
  using loaded_entries[of e fr] normalizeProject_repo by auto

lemma keptRepo_loaded:
  "keptRepo (loaded fr) r =
     (r_name r \<notin> set (getExcluded (loaded fr))
      \<and> (\<forall>e\<in>set (Config_getProjects (loaded fr)). e_repo e = JStr (r_name r) \<longrightarrow> e_url e = JNull))"
proof -
  have "(JStr (r_name r) \<in> set (getReposWithCustomUrls (loaded fr)))
        = (\<exists>e\<in>set (Config_getProjects (loaded fr)). e_repo e = JStr (r_name r) \<and> e_url e \<noteq> JNull)"
    (is "?l = ?r")
  proof
    assume ?l
    then obtain e where e: "e \<in> set (Config_getProjects (loaded fr))" "truthy (e_url e)"
        "e_repo e = JStr (r_name r)"
      by (auto simp: getReposWithCustomUrls_def)
    then have "e_url e \<noteq> JNull" using loaded_url[of e fr] by simp
    then show ?r using e by blast
  next
    assume ?r
    then obtain e where e: "e \<in> set (Config_getProjects (loaded fr))" "e_url e \<noteq> JNull"
        "e_repo e = JStr (r_name r)"
      by blast
    then have "truthy (e_url e)" "truthy (e_repo e)"
      using loaded_url[of e fr] loaded_repo[of e fr] by simp_all
    then show ?l using e by (force simp: getReposWithCustomUrls_def)
  qed
  then show ?thesis by (auto simp: keptRepo_def)
qed

lemma getProjects_Inr:
  "getProjects lc st (Inr repos) = mergeWithConfig lc st (filterPagesEnabled repos) (getUsername st)"
  by (simp add: getProjects_def Let_def)

lemma getManualProjects_loaded:
  "getManualProjects (loaded fr) = filter (\<lambda>e. e_url e \<noteq> JNull) (Config_getProjects (loaded fr))"
  unfolding getManualProjects_def
  by (rule filter_cong) (simp_all add: loaded_url)

lemma merged_auto_set:
  assumes "mergeWithConfig lc st repos user = Inr out"
  shows "set (filter isAutoDiscovered out) = set (autoProjects st user repos)"
  by (rule mset_eq_setD) (rule merged_auto_part[OF assms])


lemma mergeWithConfig_length:
  assumes "mergeWithConfig lc st repos user = Inr out"
  shows "length out = length (autoProjects st user repos) + length (manualProjects st user)"
proof -
  have "size (mset out) = size (mset (autoProjects st user repos) + mset (manualProjects st user))"
    by (simp only: mergeWithConfig_mset[OF assms])
  then show ?thesis by simp
qed


lemma normalizeProject_keeps_url:
  "truthy (e_url p) \<Longrightarrow> e_url (normalizeProject p) = e_url p"
  by (simp add: normalizeProject_def js_or_def)


lemma indexOf_bounds: "- 1 \<le> indexOf xs x \<and> ((indexOf xs x = - 1) = (x \<notin> set xs))"
  by (induction xs) (auto simp: Let_def)

lemma indexOf_notin: "(indexOf xs x = - 1) = (x \<notin> set xs)"
  using indexOf_bounds by blast

lemma compareOrdered_str:
  assumes "name a = JStr na" and "name b = JStr nb"
  shows "compareOrdered lc ord a b =
     Inr (if na \<in> set ord \<and> nb \<in> set ord then indexOf ord na - indexOf ord nb
          else if na \<in> set ord then - 1
          else if nb \<in> set ord then 1
          else lc na nb)"
  using assms by (simp add: compareOrdered_def Let_def indexOf_notin)

lemma compareAlpha_str:
  assumes "name a = JStr na" and "name b = JStr nb"
  shows "compareAlpha lc a b = Inr (lc na nb)"
  using assms by (simp add: compareAlpha_def)

lemma codeUnitCompare_total: "0 < codeUnitCompare x y \<Longrightarrow> codeUnitCompare y x \<le> 0"
  by (induction x y rule: codeUnitCompare.induct) (auto split: if_splits)

lemma codeUnitCompare_trans:
  "codeUnitCompare x y \<le> 0 \<Longrightarrow> codeUnitCompare y z \<le> 0 \<Longrightarrow> codeUnitCompare x z \<le> 0"
proof (induction x arbitrary: y z)
  case Nil
  then show ?case by (cases z) simp_all
next
  case (Cons a x)
  then show ?case
    by (cases y; cases z) (auto split: if_splits)
qed


lemma tier_total:
  assumes tot: "\<forall>x y. 0 < lc x y \<longrightarrow> lc y x \<le> 0"
    and a: "name a = JStr sa" and b: "name b = JStr sb"
    and c: "compareOrdered lc ord a b = Inr k"
  shows "(k \<le> 0 \<longrightarrow>
           (\<exists>na nb. name a = JStr na \<and> name b = JStr nb
              \<and> (na \<in> set ord \<and> nb \<in> set ord \<longrightarrow> indexOf ord na \<le> indexOf ord nb)
              \<and> (nb \<in> set ord \<longrightarrow> na \<in> set ord)
              \<and> (na \<notin> set ord \<and> nb \<notin> set ord \<longrightarrow> lc na nb \<le> 0)))
       \<and> (0 < k \<longrightarrow>
           (\<exists>na nb. name b = JStr na \<and> name a = JStr nb
              \<and> (na \<in> set ord \<and> nb \<in> set ord \<longrightarrow> indexOf ord na \<le> indexOf ord nb)
              \<and> (nb \<in> set ord \<longrightarrow> na \<in> set ord)
              \<and> (na \<notin> set ord \<and> nb \<notin> set ord \<longrightarrow> lc na nb \<le> 0)))"
proof -
  have k: "k = (if sa \<in> set ord \<and> sb \<in> set ord then indexOf ord sa - indexOf ord sb
          else if sa \<in> set ord then - 1
          else if sb \<in> set ord then 1
          else lc sa sb)"
    using c compareOrdered_str[OF a b, of lc ord] by simp
  have t: "0 < lc sa sb \<longrightarrow> lc sb sa \<le> 0" using tot by blast
  show ?thesis
    using k t by (simp add: a b split: if_splits)
qed

lemma tier_trans:
  assumes tr: "\<forall>x y z. lc x y \<le> 0 \<and> lc y z \<le> 0 \<longrightarrow> lc x z \<le> 0"
    and ab: "\<exists>na nb. name a = JStr na \<and> name b = JStr nb
              \<and> (na \<in> set ord \<and> nb \<in> set ord \<longrightarrow> indexOf ord na \<le> indexOf ord nb)
              \<and> (nb \<in> set ord \<longrightarrow> na \<in> set ord)
              \<and> (na \<notin> set ord \<and> nb \<notin> set ord \<longrightarrow> lc na nb \<le> 0)"
    and bc: "\<exists>na nb. name b = JStr na \<and> name c = JStr nb
              \<and> (na \<in> set ord \<and> nb \<in> set ord \<longrightarrow> indexOf ord na \<le> indexOf ord nb)
              \<and> (nb \<in> set ord \<longrightarrow> na \<in> set ord)
              \<and> (na \<notin> set ord \<and> nb \<notin> set ord \<longrightarrow> lc na nb \<le> 0)"
  shows "\<exists>na nb. name a = JStr na \<and> name c = JStr nb
              \<and> (na \<in> set ord \<and> nb \<in> set ord \<longrightarrow> indexOf ord na \<le> indexOf ord nb)
              \<and> (nb \<in> set ord \<longrightarrow> na \<in> set ord)
              \<and> (na \<notin> set ord \<and> nb \<notin> set ord \<longrightarrow> lc na nb \<le> 0)"
proof -
  from ab obtain sa sb where a: "name a = JStr sa" and b: "name b = JStr sb"
    and ab1: "sa \<in> set ord \<and> sb \<in> set ord \<longrightarrow> indexOf ord sa \<le> indexOf ord sb"
    and ab2: "sb \<in> set ord \<longrightarrow> sa \<in> set ord"
    and ab3: "sa \<notin> set ord \<and> sb \<notin> set ord \<longrightarrow> lc sa sb \<le> 0"
    by blast
  from bc b obtain sc where c: "name c = JStr sc"
    and bc1: "sb \<in> set ord \<and> sc \<in> set ord \<longrightarrow> indexOf ord sb \<le> indexOf ord sc"
    and bc2: "sc \<in> set ord \<longrightarrow> sb \<in> set ord"
    and bc3: "sb \<notin> set ord \<and> sc \<notin> set ord \<longrightarrow> lc sb sc \<le> 0"
    by auto
  have 1: "sa \<in> set ord \<and> sc \<in> set ord \<longrightarrow> indexOf ord sa \<le> indexOf ord sc"
    using ab1 bc1 bc2 by fastforce
  have 2: "sc \<in> set ord \<longrightarrow> sa \<in> set ord"
    using ab2 bc2 by blast
  have 3: "sa \<notin> set ord \<and> sc \<notin> set ord \<longrightarrow> lc sa sc \<le> 0"
  proof
    assume h: "sa \<notin> set ord \<and> sc \<notin> set ord"
    then have "sb \<notin> set ord" using ab2 by blast
    then have "lc sa sb \<le> 0" "lc sb sc \<le> 0" using h ab3 bc3 by simp_all
    then show "lc sa sc \<le> 0" using tr by blast
  qed
  from a c 1 2 3 show ?thesis by blast
qed

lemma alpha_total:
  assumes tot: "\<forall>x y. 0 < lc x y \<longrightarrow> lc y x \<le> 0"
    and a: "name a = JStr sa" and b: "name b = JStr sb"
    and c: "compareAlpha lc a b = Inr k"
  shows "(k \<le> 0 \<longrightarrow> (\<exists>na nb. name a = JStr na \<and> name b = JStr nb \<and> lc na nb \<le> 0))
       \<and> (0 < k \<longrightarrow> (\<exists>na nb. name b = JStr na \<and> name a = JStr nb \<and> lc na nb \<le> 0))"
proof -
  have k: "k = lc sa sb" using c compareAlpha_str[OF a b, of lc] by simp
  have t: "0 < lc sa sb \<longrightarrow> lc sb sa \<le> 0" using tot by blast
  show ?thesis using k t by (simp add: a b)
qed

lemma alpha_trans:
  assumes tr: "\<forall>x y z. lc x y \<le> 0 \<and> lc y z \<le> 0 \<longrightarrow> lc x z \<le> 0"
    and ab: "\<exists>na nb. name a = JStr na \<and> name b = JStr nb \<and> lc na nb \<le> 0"
    and bc: "\<exists>na nb. name b = JStr na \<and> name c = JStr nb \<and> lc na nb \<le> 0"
  shows "\<exists>na nb. name a = JStr na \<and> name c = JStr nb \<and> lc na nb \<le> 0"
proof -
  from ab obtain sa sb where a: "name a = JStr sa" "name b = JStr sb" "lc sa sb \<le> 0" by blast
  from bc a obtain sc where c: "name c = JStr sc" "lc sb sc \<le> 0" by auto
  have "lc sa sc \<le> 0" using tr a(3) c(2) by blast
  then show ?thesis using a(1) c(1) by blast
qed


lemma sortBy_compareOrdered_sorted:
  assumes tot: "\<forall>x y. 0 < lc x y \<longrightarrow> lc y x \<le> 0"
    and tr: "\<forall>x y z. lc x y \<le> 0 \<and> lc y z \<le> 0 \<longrightarrow> lc x z \<le> 0"
    and names: "\<And>p. p \<in> set ps \<Longrightarrow> \<exists>s. name p = JStr s"
    and srt: "sortBy (compareOrdered lc ord) ps = Inr out"
  shows "sorted_wrt (\<lambda>a b. \<exists>na nb. name a = JStr na \<and> name b = JStr nb
              \<and> (na \<in> set ord \<and> nb \<in> set ord \<longrightarrow> indexOf ord na \<le> indexOf ord nb)
              \<and> (nb \<in> set ord \<longrightarrow> na \<in> set ord)
              \<and> (na \<notin> set ord \<and> nb \<notin> set ord \<longrightarrow> lc na nb \<le> 0)) out"
proof (rule sortBy_sorted[OF srt])
  fix x y k
  assume x: "x \<in> set ps" and y: "y \<in> set ps" and k: "compareOrdered lc ord x y = Inr k"
  obtain sx sy where n: "name x = JStr sx" "name y = JStr sy" using names x y by blast
  show "(k \<le> 0 \<longrightarrow>
           (\<exists>na nb. name x = JStr na \<and> name y = JStr nb
              \<and> (na \<in> set ord \<and> nb \<in> set ord \<longrightarrow> indexOf ord na \<le> indexOf ord nb)
              \<and> (nb \<in> set ord \<longrightarrow> na \<in> set ord)
              \<and> (na \<notin> set ord \<and> nb \<notin> set ord \<longrightarrow> lc na nb \<le> 0)))
       \<and> (0 < k \<longrightarrow>
           (\<exists>na nb. name y = JStr na \<and> name x = JStr nb
              \<and> (na \<in> set ord \<and> nb \<in> set ord \<longrightarrow> indexOf ord na \<le> indexOf ord nb)
              \<and> (nb \<in> set ord \<longrightarrow> na \<in> set ord)
              \<and> (na \<notin> set ord \<and> nb \<notin> set ord \<longrightarrow> lc na nb \<le> 0)))"
    by (rule tier_total[OF tot n k])
next
  fix x y z
  assume "\<exists>na nb. name x = JStr na \<and> name y = JStr nb
              \<and> (na \<in> set ord \<and> nb \<in> set ord \<longrightarrow> indexOf ord na \<le> indexOf ord nb)
              \<and> (nb \<in> set ord \<longrightarrow> na \<in> set ord)
              \<and> (na \<notin> set ord \<and> nb \<notin> set ord \<longrightarrow> lc na nb \<le> 0)"
    and "\<exists>na nb. name y = JStr na \<and> name z = JStr nb
              \<and> (na \<in> set ord \<and> nb \<in> set ord \<longrightarrow> indexOf ord na \<le> indexOf ord nb)
              \<and> (nb \<in> set ord \<longrightarrow> na \<in> set ord)
              \<and> (na \<notin> set ord \<and> nb \<notin> set ord \<longrightarrow> lc na nb \<le> 0)"
  then show "\<exists>na nb. name x = JStr na \<and> name z = JStr nb
              \<and> (na \<in> set ord \<and> nb \<in> set ord \<longrightarrow> indexOf ord na \<le> indexOf ord nb)
              \<and> (nb \<in> set ord \<longrightarrow> na \<in> set ord)
              \<and> (na \<notin> set ord \<and> nb \<notin> set ord \<longrightarrow> lc na nb \<le> 0)"
    by (rule tier_trans[OF tr])
qed

lemma sortBy_compareAlpha_sorted:
  assumes tot: "\<forall>x y. 0 < lc x y \<longrightarrow> lc y x \<le> 0"
    and tr: "\<forall>x y z. lc x y \<le> 0 \<and> lc y z \<le> 0 \<longrightarrow> lc x z \<le> 0"
    and names: "\<And>p. p \<in> set ps \<Longrightarrow> \<exists>s. name p = JStr s"
    and srt: "sortBy (compareAlpha lc) ps = Inr out"
  shows "sorted_wrt (\<lambda>a b. \<exists>na nb. name a = JStr na \<and> name b = JStr nb \<and> lc na nb \<le> 0) out"
proof (rule sortBy_sorted[OF srt])
  fix x y k
  assume x: "x \<in> set ps" and y: "y \<in> set ps" and k: "compareAlpha lc x y = Inr k"
  obtain sx sy where n: "name x = JStr sx" "name y = JStr sy" using names x y by blast
  show "(k \<le> 0 \<longrightarrow> (\<exists>na nb. name x = JStr na \<and> name y = JStr nb \<and> lc na nb \<le> 0))
       \<and> (0 < k \<longrightarrow> (\<exists>na nb. name y = JStr na \<and> name x = JStr nb \<and> lc na nb \<le> 0))"
    by (rule alpha_total[OF tot n k])
next
  fix x y z
  assume "\<exists>na nb. name x = JStr na \<and> name y = JStr nb \<and> lc na nb \<le> 0"
    and "\<exists>na nb. name y = JStr na \<and> name z = JStr nb \<and> lc na nb \<le> 0"
  then show "\<exists>na nb. name x = JStr na \<and> name z = JStr nb \<and> lc na nb \<le> 0"
    by (rule alpha_trans[OF tr])
qed


section \<open>Configuration load\<close>

text \<open>
  C9. \<open>load\<close> always returns a configuration and memoizes it; when the fetch rejects,
  the response is not ok, or the YAML parser throws, it is the built-in default
  configuration (account \<open>darrenmcewan\<close>, empty exclusion, order and project lists);
  \<open>getUsername\<close> gives the same account when no configuration is loaded or the
  configured account is absent or empty.
\<close>

theorem load_recovers_with_defaults:
  "(\<exists>c. load st fr = (c, Some c))
   \<and> load None FetchRejects = (default_config, Some default_config)
   \<and> load None (FetchResponse False status body) = (default_config, Some default_config)
   \<and> load None (FetchResponse ok status YamlThrows) = (default_config, Some default_config)
   \<and> (\<forall>e. load_try fr = Inl e \<longrightarrow> load None fr = (default_config, Some default_config))
   \<and> default_config = \<lparr> username = ''darrenmcewan'', exclude = [], order = [], projects = [] \<rparr>
   \<and> getUsername None = ''darrenmcewan''
   \<and> (username cfg = [] \<longrightarrow> getUsername (Some cfg) = ''darrenmcewan'')
   \<and> (\<not> truthy (raw_username raw) \<longrightarrow> getUsername (Some (normalizeConfig raw)) = ''darrenmcewan'')"
proof -
  have 1: "\<exists>c. load st fr = (c, Some c)"
    by (cases st; cases "load_try fr") (simp_all add: load_def)
  have 2: "load None FetchRejects = (default_config, Some default_config)"
    by (simp add: load_def)
  have 3: "load None (FetchResponse False status body) = (default_config, Some default_config)"
    by (simp add: load_def)
  have 4: "load None (FetchResponse ok status YamlThrows) = (default_config, Some default_config)"
    by (simp add: load_def)
  have 5: "\<forall>e. load_try fr = Inl e \<longrightarrow> load None fr = (default_config, Some default_config)"
    by (simp add: load_def)
  have 6: "default_config = \<lparr> username = ''darrenmcewan'', exclude = [], order = [], projects = [] \<rparr>"
    by (simp add: default_config_def)
  have 7: "getUsername None = ''darrenmcewan''"
    by (simp add: getUsername_def)
  have 8: "username cfg = [] \<longrightarrow> getUsername (Some cfg) = ''darrenmcewan''"
    by (simp add: getUsername_def)
  have 9: "\<not> truthy (raw_username raw) \<longrightarrow> getUsername (Some (normalizeConfig raw)) = ''darrenmcewan''"
    by (simp add: getUsername_def normalizeConfig_def js_or_def)
  from 1 2 3 4 5 6 7 8 9 show ?thesis by blast
qed

theorem load_recovers_with_defaults_witness:
  "load_try (FetchResponse False 404 YamlThrows) = Inl (HttpError 404)
   \<and> load None (FetchResponse False 404 YamlThrows) = (default_config, Some default_config)
   \<and> username (default_config\<lparr>username := []\<rparr>) = []
   \<and> getUsername (Some (default_config\<lparr>username := []\<rparr>)) = ''darrenmcewan''
   \<and> \<not> truthy (raw_username empty_raw)
   \<and> getUsername (Some (normalizeConfig empty_raw)) = ''darrenmcewan''"
  using load_recovers_with_defaults[of None "FetchResponse False 404 YamlThrows" 404 YamlThrows False
      "default_config\<lparr>username := []\<rparr>" empty_raw]
  by (simp add: empty_raw_def)

section \<open>Manual-only fallback\<close>

text \<open>
  C8. In \<open>getManualProjectsOnly\<close>, for the account \<open>alice\<close> an entry that only sets
  \<open>repo: proj1\<close> gives a project with the pages URL \<open>https://alice.github.io/proj1/\<close>
  and the repository link \<open>https://github.com/alice/proj1\<close> (and so for every account and
  repository name); an entry with neither \<open>url\<close> nor \<open>repo\<close> gets the URL \<open>#\<close>.
\<close>

theorem fallback_synthesizes_links:
  "getManualProjectsOnly lc
      (loaded (yamlFile ''alice'' [] []
                 [yamlEntry (JStr ''proj1'') JUndefined JUndefined JUndefined JUndefined]))
    = Inr [\<lparr> name = JStr ''proj1'', description = JStr [],
              url = JStr ''https://alice.github.io/proj1/'',
              repoUrl = JStr ''https://github.com/alice/proj1'',
              thumbnail = JNull, isAutoDiscovered = False \<rparr>]
   \<and> (\<not> truthy (e_url p) \<and> \<not> truthy (e_repo p)
        \<longrightarrow> url (fallbackProject user (normalizeProject p)) = JStr ''#'')
   \<and> (\<not> truthy (e_url p) \<and> e_repo p = JStr r \<and> r \<noteq> [] \<and> e_repoUrl p = JUndefined
        \<longrightarrow> url (fallbackProject user (normalizeProject p))
              = JStr (''https://'' @ user @ ''.github.io/'' @ r @ ''/'')
          \<and> repoUrl (fallbackProject user (normalizeProject p))
              = JStr (''https://github.com/'' @ user @ ''/'' @ r))"
proof -
  have 1: "getManualProjectsOnly lc
      (loaded (yamlFile ''alice'' [] []
                 [yamlEntry (JStr ''proj1'') JUndefined JUndefined JUndefined JUndefined]))
    = Inr [\<lparr> name = JStr ''proj1'', description = JStr [],
              url = JStr ''https://alice.github.io/proj1/'',
              repoUrl = JStr ''https://github.com/alice/proj1'',
              thumbnail = JNull, isAutoDiscovered = False \<rparr>]"
    by (simp add: eval_defs)
  have 2: "\<not> truthy (e_url p) \<and> \<not> truthy (e_repo p)
        \<longrightarrow> url (fallbackProject user (normalizeProject p)) = JStr ''#''"
    by (simp add: fallbackProject_def normalizeProject_def js_or_def)
  have 3: "\<not> truthy (e_url p) \<and> e_repo p = JStr r \<and> r \<noteq> [] \<and> e_repoUrl p = JUndefined
        \<longrightarrow> url (fallbackProject user (normalizeProject p))
              = JStr (''https://'' @ user @ ''.github.io/'' @ r @ ''/'')
          \<and> repoUrl (fallbackProject user (normalizeProject p))
              = JStr (''https://github.com/'' @ user @ ''/'' @ r)"
    by (simp add: fallbackProject_def normalizeProject_def js_or_def)
  from 1 2 3 show ?thesis by blast
qed

theorem fallback_synthesizes_links_witness:
  "\<not> truthy (e_url (yamlEntry JUndefined (JStr ''Ext'') JUndefined JUndefined JUndefined))
   \<and> \<not> truthy (e_repo (yamlEntry JUndefined (JStr ''Ext'') JUndefined JUndefined JUndefined))
   \<and> url (fallbackProject ''alice''
            (normalizeProject (yamlEntry JUndefined (JStr ''Ext'') JUndefined JUndefined JUndefined)))
       = JStr ''#''
   \<and> map url (projr (getManualProjectsOnly codeUnitCompare
        (loaded (yamlFile ''alice'' [] []
           [yamlEntry JUndefined (JStr ''Ext'') JUndefined JUndefined JUndefined])))) = [JStr ''#'']"
  using fallback_synthesizes_links[of codeUnitCompare
      "yamlEntry JUndefined (JStr ''Ext'') JUndefined JUndefined JUndefined" "''alice''" "''proj1''"]
  by (simp add: eval_defs)

section \<open>Override lookup\<close>

text \<open>
  C10. When several entries declare the same \<open>repo\<close>, the override that \<open>mergeWithConfig\<close>
  applies to the project of that repository is the first of them in the order of the
  configuration; the entries after it do not change the override or the project.
\<close>

theorem override_from_first_entry:
  assumes "\<forall>p\<in>set pre. e_repo p \<noteq> JStr (r_name r)"
    and "e_repo e = JStr (r_name r)"
    and "Config_getProjects st = pre @ e # post"
  shows "getProjectOverride st (r_name r) = Some e
         \<and> autoProject st user r = applyOverride e (transformRepo r user)
         \<and> (Config_getProjects st' = pre @ e # post'
              \<longrightarrow> getProjectOverride st' (r_name r) = getProjectOverride st (r_name r)
                \<and> autoProject st' user r = autoProject st user r)"
proof -
  have f: "find (\<lambda>p. e_repo p = JStr (r_name r)) (pre @ e # ps) = Some e" for ps
    by (rule find_first_match) (use assms in simp_all)
  have 1: "getProjectOverride st (r_name r) = Some e"
    using f[of post] assms(3) by (simp add: getProjectOverride_def)
  have 2: "autoProject st user r = applyOverride e (transformRepo r user)"
    using 1 by (simp add: autoProject_def)
  have 3: "Config_getProjects st' = pre @ e # post'
              \<longrightarrow> getProjectOverride st' (r_name r) = getProjectOverride st (r_name r)
                \<and> autoProject st' user r = autoProject st user r"
    using f[of post'] 1 2 by (simp add: getProjectOverride_def autoProject_def)
  from 1 2 3 show ?thesis by blast
qed

theorem override_from_first_entry_witness:
  "e_repo (yamlEntry (JStr ''a'') JNull JNull JNull JNull) \<noteq> JStr (r_name (aliceRepo ''x'' True))
   \<and> e_repo (yamlEntry (JStr ''x'') JNull (JStr ''first'') JNull JNull)
       = JStr (r_name (aliceRepo ''x'' True))
   \<and> description
        (autoProject
           (Some (default_config\<lparr>projects :=
              [yamlEntry (JStr ''a'') JNull JNull JNull JNull,
               yamlEntry (JStr ''x'') JNull (JStr ''first'') JNull JNull,
               yamlEntry (JStr ''x'') JNull (JStr ''second'') JNull JNull]\<rparr>))
           ''alice'' (aliceRepo ''x'' True))
       = JStr ''first''"
  using override_from_first_entry[of "[yamlEntry (JStr ''a'') JNull JNull JNull JNull]"
      "aliceRepo ''x'' True" "yamlEntry (JStr ''x'') JNull (JStr ''first'') JNull JNull"
      "Some (default_config\<lparr>projects :=
              [yamlEntry (JStr ''a'') JNull JNull JNull JNull,
               yamlEntry (JStr ''x'') JNull (JStr ''first'') JNull JNull,
               yamlEntry (JStr ''x'') JNull (JStr ''second'') JNull JNull]\<rparr>)"
      "[yamlEntry (JStr ''x'') JNull (JStr ''second'') JNull JNull]" "''alice''"]
  by (simp add: eval_defs)

section \<open>Primary merge: the auto-discovered branch\<close>

text \<open>
  C4. \<open>getProjects\<close> returns the same projects as on the pages-enabled repositories
  alone, and every auto-discovered project of its output is the project of a repository
  with \<open>has_pages\<close>: a repository without pages never produces a project, whatever the
  configuration.
\<close>

theorem pages_disabled_never_appears:
  "(\<exists>out. getProjects lc (loaded fr) (Inr repos) = Inr out)
   \<and> getProjects lc (loaded fr) (Inr repos)
       = getProjects lc (loaded fr) (Inr (filter r_has_pages repos))
   \<and> (\<forall>out. getProjects lc (loaded fr) (Inr repos) = Inr out \<longrightarrow>
        (\<forall>p\<in>set out. isAutoDiscovered p \<longrightarrow>
           (\<exists>r\<in>set repos. r_has_pages r
               \<and> p = autoProject (loaded fr) (getUsername (loaded fr)) r))
        \<and> ((\<forall>r\<in>set repos. \<not> r_has_pages r) \<longrightarrow> filter isAutoDiscovered out = []))"
proof -
  let ?st = "loaded fr" and ?u = "getUsername (loaded fr)"
  have 1: "\<exists>out. getProjects lc ?st (Inr repos) = Inr out"
    using mergeWithConfig_defined by (simp add: getProjects_Inr)
  have 2: "getProjects lc ?st (Inr repos) = getProjects lc ?st (Inr (filter r_has_pages repos))"
    by (simp add: getProjects_Inr filterPagesEnabled_def)
  have 3: "\<forall>p\<in>set out. isAutoDiscovered p \<longrightarrow>
             (\<exists>r\<in>set repos. r_has_pages r \<and> p = autoProject ?st ?u r)"
    if out: "getProjects lc ?st (Inr repos) = Inr out" for out
  proof (intro ballI impI)
    fix p assume p: "p \<in> set out" "isAutoDiscovered p"
    then have "p \<in> set (filter isAutoDiscovered out)" by simp
    moreover have "set (filter isAutoDiscovered out)
                   = set (autoProjects ?st ?u (filterPagesEnabled repos))"
      by (rule merged_auto_set[of lc]) (use out in \<open>simp add: getProjects_Inr\<close>)
    ultimately have "p \<in> set (autoProjects ?st ?u (filterPagesEnabled repos))"
      by blast
    then show "\<exists>r\<in>set repos. r_has_pages r \<and> p = autoProject ?st ?u r"
      by (auto simp: autoProjects_def filterPagesEnabled_def)
  qed
  have 4: "(\<forall>r\<in>set repos. \<not> r_has_pages r) \<longrightarrow> filter isAutoDiscovered out = []"
    if out: "getProjects lc ?st (Inr repos) = Inr out" for out
  proof
    assume "\<forall>r\<in>set repos. \<not> r_has_pages r"
    then have "filterPagesEnabled repos = []" by (simp add: filterPagesEnabled_def)
    then have "autoProjects ?st ?u (filterPagesEnabled repos) = []"
      by (simp add: autoProjects_def)
    moreover have "set (filter isAutoDiscovered out)
                   = set (autoProjects ?st ?u (filterPagesEnabled repos))"
      by (rule merged_auto_set[of lc]) (use out in \<open>simp add: getProjects_Inr\<close>)
    ultimately have "set (filter isAutoDiscovered out) = {}" by simp
    then show "filter isAutoDiscovered out = []" by (simp only: set_empty)
  qed
  from 1 2 3 4 show ?thesis by blast
qed


theorem pages_disabled_never_appears_witness:
  "map name (projr (getProjects codeUnitCompare (loaded (yamlFile ''alice'' [] [] []))
                      (Inr [aliceRepo ''x'' True, aliceRepo ''y'' False])))
     = [JStr ''x'']
   \<and> (\<exists>p\<in>set (projr (getProjects codeUnitCompare (loaded (yamlFile ''alice'' [] [] []))
                      (Inr [aliceRepo ''x'' True, aliceRepo ''y'' False]))).
         isAutoDiscovered p
         \<and> (\<exists>r\<in>set [aliceRepo ''x'' True, aliceRepo ''y'' False]. r_has_pages r
               \<and> p = autoProject (loaded (yamlFile ''alice'' [] [] []))
                       (getUsername (loaded (yamlFile ''alice'' [] [] []))) r))
   \<and> \<not> r_has_pages (aliceRepo ''y'' False)
   \<and> getProjects codeUnitCompare (loaded (yamlFile ''alice'' [] [] []))
         (Inr [aliceRepo ''y'' False]) = Inr []"
  using pages_disabled_never_appears[of codeUnitCompare "yamlFile ''alice'' [] [] []"
           "[aliceRepo ''x'' True, aliceRepo ''y'' False]"]
        pages_disabled_never_appears[of codeUnitCompare "yamlFile ''alice'' [] [] []"
           "[aliceRepo ''y'' False]"]
  by (simp add: eval_defs)


text \<open>
  C5. The auto-discovered branch keeps exactly the pages-enabled repositories whose name
  is not in \<open>exclude\<close> and is not the \<open>repo\<close> of an entry with a non-null \<open>url\<close>; the
  auto-discovered projects of the output are the projects of these repositories; a
  repository named in \<open>exclude\<close> is not among them, whatever the entries say.
\<close>

theorem auto_branch_filter:
  "autoProjects (loaded fr) user (filterPagesEnabled repos)
     = map (autoProject (loaded fr) user)
         (filter (\<lambda>r. r_has_pages r
                     \<and> r_name r \<notin> set (getExcluded (loaded fr))
                     \<and> (\<forall>e\<in>set (Config_getProjects (loaded fr)).
                            e_repo e = JStr (r_name r) \<longrightarrow> e_url e = JNull)) repos)
   \<and> (\<forall>out. getProjects lc (loaded fr) (Inr repos) = Inr out \<longrightarrow>
         mset (filter isAutoDiscovered out)
           = mset (map (autoProject (loaded fr) (getUsername (loaded fr)))
               (filter (\<lambda>r. r_has_pages r
                     \<and> r_name r \<notin> set (getExcluded (loaded fr))
                     \<and> (\<forall>e\<in>set (Config_getProjects (loaded fr)).
                            e_repo e = JStr (r_name r) \<longrightarrow> e_url e = JNull)) repos)))
   \<and> (r_name r \<in> set (getExcluded (loaded fr))
        \<longrightarrow> r \<notin> set (filter (keptRepo (loaded fr)) (filterPagesEnabled repos)))"
proof -
  let ?keep = "\<lambda>r. r_has_pages r
                     \<and> r_name r \<notin> set (getExcluded (loaded fr))
                     \<and> (\<forall>e\<in>set (Config_getProjects (loaded fr)).
                            e_repo e = JStr (r_name r) \<longrightarrow> e_url e = JNull)"
  have f: "filter (keptRepo (loaded fr)) (filterPagesEnabled repos) = filter ?keep repos"
    by (simp add: filterPagesEnabled_def keptRepo_loaded conj_commute)
  have 1: "autoProjects (loaded fr) u (filterPagesEnabled repos)
            = map (autoProject (loaded fr) u) (filter ?keep repos)" for u
    by (simp only: autoProjects_def f)
  have 2: "mset (filter isAutoDiscovered out)
           = mset (map (autoProject (loaded fr) (getUsername (loaded fr))) (filter ?keep repos))"
    if "getProjects lc (loaded fr) (Inr repos) = Inr out" for out
    using merged_auto_part[of lc "loaded fr" "filterPagesEnabled repos" "getUsername (loaded fr)" out]
      that 1[of "getUsername (loaded fr)"]
    by (simp only: getProjects_Inr)
  have 3: "r_name r \<in> set (getExcluded (loaded fr))
        \<longrightarrow> r \<notin> set (filter (keptRepo (loaded fr)) (filterPagesEnabled repos))"
    by (simp add: keptRepo_def)
  from 1[of user] 2 3 show ?thesis by blast
qed

theorem auto_branch_filter_witness:
  "getProjects codeUnitCompare
      (loaded (yamlFile ''alice'' [''hidden''] []
         [yamlEntry (JStr ''moved'') JNull JNull (JStr ''https://example.com'') JUndefined,
          yamlEntry (JStr ''hidden'') JNull (JStr ''custom'') JNull JUndefined,
          yamlEntry (JStr ''kept'') JNull (JStr ''custom'') JNull JUndefined]))
      (Inr [aliceRepo ''hidden'' True, aliceRepo ''moved'' True, aliceRepo ''kept'' True,
            aliceRepo ''off'' False])
    = Inr [\<lparr> name = JStr ''kept'', description = JStr ''custom'',
              url = JStr ''https://alice.github.io/kept/'',
              repoUrl = JStr ''https://github.com/alice/kept'',
              thumbnail = JNull, isAutoDiscovered = True \<rparr>,
           \<lparr> name = JStr ''moved'', description = JStr [],
              url = JStr ''https://example.com'', repoUrl = JNull,
              thumbnail = JNull, isAutoDiscovered = False \<rparr>]
   \<and> r_name (aliceRepo ''hidden'' True) \<in> set (getExcluded
        (loaded (yamlFile ''alice'' [''hidden''] []
         [yamlEntry (JStr ''moved'') JNull JNull (JStr ''https://example.com'') JUndefined,
          yamlEntry (JStr ''hidden'') JNull (JStr ''custom'') JNull JUndefined,
          yamlEntry (JStr ''kept'') JNull (JStr ''custom'') JNull JUndefined])))
   \<and> filter (\<lambda>r. r_has_pages r
                 \<and> r_name r \<notin> set [''hidden'']
                 \<and> (\<forall>e\<in>set (Config_getProjects (loaded (yamlFile ''alice'' [''hidden''] []
         [yamlEntry (JStr ''moved'') JNull JNull (JStr ''https://example.com'') JUndefined,
          yamlEntry (JStr ''hidden'') JNull (JStr ''custom'') JNull JUndefined,
          yamlEntry (JStr ''kept'') JNull (JStr ''custom'') JNull JUndefined]))).
                            e_repo e = JStr (r_name r) \<longrightarrow> e_url e = JNull))
        [aliceRepo ''hidden'' True, aliceRepo ''moved'' True, aliceRepo ''kept'' True,
            aliceRepo ''off'' False]
      = [aliceRepo ''kept'' True]"
  using auto_branch_filter[of
      "yamlFile ''alice'' [''hidden''] []
         [yamlEntry (JStr ''moved'') JNull JNull (JStr ''https://example.com'') JUndefined,
          yamlEntry (JStr ''hidden'') JNull (JStr ''custom'') JNull JUndefined,
          yamlEntry (JStr ''kept'') JNull (JStr ''custom'') JNull JUndefined]"
      "''alice''"
      "[aliceRepo ''hidden'' True, aliceRepo ''moved'' True, aliceRepo ''kept'' True,
            aliceRepo ''off'' False]"
      codeUnitCompare "aliceRepo ''hidden'' True"]
  by (simp add: eval_defs)

section \<open>Primary merge: the number of projects\<close>

text \<open>
  C1, as the code has it. \<open>getManualProjects\<close> keeps only the entries with a \<open>url\<close>, so
  the output of \<open>getProjects\<close> has one project for each repository that passes the
  pages and exclusion filters and one for each entry with a non-null \<open>url\<close>. An entry
  without \<open>url\<close> that overrides a repository is not materialized a second time.
\<close>

theorem project_count:
  "(\<exists>out. getProjects lc (loaded fr) (Inr repos) = Inr out)
   \<and> (\<forall>out. getProjects lc (loaded fr) (Inr repos) = Inr out \<longrightarrow>
         length out
           = length (filter (keptRepo (loaded fr)) (filterPagesEnabled repos))
             + length (filter (\<lambda>e. e_url e \<noteq> JNull) (Config_getProjects (loaded fr))))"
proof -
  have 1: "\<exists>out. getProjects lc (loaded fr) (Inr repos) = Inr out"
    using mergeWithConfig_defined by (simp add: getProjects_Inr)
  have 2: "length out
           = length (filter (keptRepo (loaded fr)) (filterPagesEnabled repos))
             + length (filter (\<lambda>e. e_url e \<noteq> JNull) (Config_getProjects (loaded fr)))"
    if "getProjects lc (loaded fr) (Inr repos) = Inr out" for out
  proof -
    have "mergeWithConfig lc (loaded fr) (filterPagesEnabled repos) (getUsername (loaded fr))
            = Inr out"
      using that by (simp only: getProjects_Inr)
    from mergeWithConfig_length[OF this] show ?thesis
      by (simp add: autoProjects_def manualProjects_def getManualProjects_loaded)
  qed
  from 1 2 show ?thesis by blast
qed

theorem project_count_witness:
  "getProjects codeUnitCompare
      (loaded (yamlFile ''alice'' [] []
         [yamlEntry (JStr ''x'') JUndefined (JStr ''custom'') JUndefined JUndefined,
          yamlEntry JUndefined (JStr ''Ext'') JUndefined (JStr ''https://example.com'') JUndefined]))
      (Inr [aliceRepo ''x'' True, aliceRepo ''y'' False])
    = Inr [\<lparr> name = JStr ''Ext'', description = JStr [],
              url = JStr ''https://example.com'', repoUrl = JNull,
              thumbnail = JNull, isAutoDiscovered = False \<rparr>,
           \<lparr> name = JStr ''x'', description = JStr ''custom'',
              url = JStr ''https://alice.github.io/x/'',
              repoUrl = JStr ''https://github.com/alice/x'',
              thumbnail = JNull, isAutoDiscovered = True \<rparr>]
   \<and> length (filter (keptRepo (loaded (yamlFile ''alice'' [] []
         [yamlEntry (JStr ''x'') JUndefined (JStr ''custom'') JUndefined JUndefined,
          yamlEntry JUndefined (JStr ''Ext'') JUndefined (JStr ''https://example.com'') JUndefined])))
        (filterPagesEnabled [aliceRepo ''x'' True, aliceRepo ''y'' False])) = 1
   \<and> length (filter (\<lambda>e. e_url e \<noteq> JNull) (Config_getProjects (loaded (yamlFile ''alice'' [] []
         [yamlEntry (JStr ''x'') JUndefined (JStr ''custom'') JUndefined JUndefined,
          yamlEntry JUndefined (JStr ''Ext'') JUndefined (JStr ''https://example.com'') JUndefined]))))
      = 1"
  using project_count[of codeUnitCompare
      "yamlFile ''alice'' [] []
         [yamlEntry (JStr ''x'') JUndefined (JStr ''custom'') JUndefined JUndefined,
          yamlEntry JUndefined (JStr ''Ext'') JUndefined (JStr ''https://example.com'') JUndefined]"
      "[aliceRepo ''x'' True, aliceRepo ''y'' False]"]
  by (simp add: eval_defs)

theorem project_count_counterexample:
  "getProjects codeUnitCompare
      (loaded (yamlFile ''alice'' [] []
         [yamlEntry (JStr ''x'') JUndefined (JStr ''custom'') JUndefined JUndefined]))
      (Inr [aliceRepo ''x'' True])
    = Inr [\<lparr> name = JStr ''x'', description = JStr ''custom'',
              url = JStr ''https://alice.github.io/x/'',
              repoUrl = JStr ''https://github.com/alice/x'',
              thumbnail = JNull, isAutoDiscovered = True \<rparr>]
   \<and> length (projr (getProjects codeUnitCompare
      (loaded (yamlFile ''alice'' [] []
         [yamlEntry (JStr ''x'') JUndefined (JStr ''custom'') JUndefined JUndefined]))
      (Inr [aliceRepo ''x'' True])))
       \<noteq> length (filter (keptRepo (loaded (yamlFile ''alice'' [] []
                 [yamlEntry (JStr ''x'') JUndefined (JStr ''custom'') JUndefined JUndefined])))
                 (filterPagesEnabled [aliceRepo ''x'' True]))
         + length (Config_getProjects (loaded (yamlFile ''alice'' [] []
                 [yamlEntry (JStr ''x'') JUndefined (JStr ''custom'') JUndefined JUndefined])))"
  by (simp add: eval_defs)


section \<open>The repository link of manual projects\<close>

text \<open>
  C2. \<open>mergeWithConfig\<close> tests \<open>repoUrl\<close> against \<open>undefined\<close>, but \<open>normalizeProject\<close>
  has already replaced an absent \<open>repoUrl\<close> by \<open>null\<close>: for the entry
  \<open>{repo: proj1, url: https://example.com}\<close> and the account \<open>alice\<close> the project has no
  repository link, and in general the link of a manual project is the declared value,
  or \<open>null\<close> when none is declared.
\<close>

theorem primary_merge_never_synthesizes_repoUrl:
  "getProjects codeUnitCompare
      (loaded (yamlFile ''alice'' [] []
         [yamlEntry (JStr ''proj1'') JUndefined JUndefined (JStr ''https://example.com'') JUndefined]))
      (Inr [])
    = Inr [\<lparr> name = JStr ''proj1'', description = JStr [],
              url = JStr ''https://example.com'', repoUrl = JNull,
              thumbnail = JNull, isAutoDiscovered = False \<rparr>]
   \<and> repoUrl (manualProject user (normalizeProject p))
       = (if e_repoUrl p = JUndefined then JNull else e_repoUrl p)"
  by (simp add: eval_defs)


text \<open>
  C3. \<open>getManualProjectsOnly\<close> tests \<open>repoUrl\<close> against \<open>null\<close>: for the entry
  \<open>{repo: proj1, url: https://example.com, repoUrl: null}\<close> and the account \<open>alice\<close> the
  fallback gives the synthesized link \<open>https://github.com/alice/proj1\<close>, where the primary
  merge gives \<open>null\<close>.
\<close>

theorem fallback_replaces_explicit_null_repoUrl:
  "getManualProjectsOnly codeUnitCompare
      (loaded (yamlFile ''alice'' [] []
         [yamlEntry (JStr ''proj1'') JUndefined JUndefined (JStr ''https://example.com'') JNull]))
    = Inr [\<lparr> name = JStr ''proj1'', description = JStr [],
              url = JStr ''https://example.com'',
              repoUrl = JStr ''https://github.com/alice/proj1'',
              thumbnail = JNull, isAutoDiscovered = False \<rparr>]
   \<and> getProjects codeUnitCompare
      (loaded (yamlFile ''alice'' [] []
         [yamlEntry (JStr ''proj1'') JUndefined JUndefined (JStr ''https://example.com'') JNull]))
      (Inr [])
    = Inr [\<lparr> name = JStr ''proj1'', description = JStr [],
              url = JStr ''https://example.com'', repoUrl = JNull,
              thumbnail = JNull, isAutoDiscovered = False \<rparr>]"
  by (simp add: eval_defs)

section \<open>Repositories with a custom URL\<close>

text \<open>
  C6, as the code has it. When exactly one entry of the loaded configuration names the
  repository and has a non-null \<open>url\<close>, the repository is dropped from the auto-discovered
  branch, and the output consists of the projects of the other repositories and entries
  and of one more project: the manual project of that entry, not auto-discovered, with the
  \<open>url\<close> as configured. Entries are not deduplicated: two such entries for one repository
  give two projects.
\<close>

theorem custom_url_repo_once:
  assumes "filter (\<lambda>e'. e_repo e' = JStr (r_name r) \<and> e_url e' \<noteq> JNull)
             (Config_getProjects (loaded fr)) = [e]"
  shows "\<not> keptRepo (loaded fr) r
    \<and> (\<forall>r'\<in>set (filter (keptRepo (loaded fr)) (filterPagesEnabled repos)). r_name r' \<noteq> r_name r)
    \<and> (\<exists>out. getProjects lc (loaded fr) (Inr repos) = Inr out)
    \<and> (\<forall>out. getProjects lc (loaded fr) (Inr repos) = Inr out \<longrightarrow>
          mset out
            = add_mset (manualProject (getUsername (loaded fr)) e)
                (mset (autoProjects (loaded fr) (getUsername (loaded fr)) (filterPagesEnabled repos))
                 + mset (map (manualProject (getUsername (loaded fr)))
                      (filter (\<lambda>e'. e_repo e' \<noteq> JStr (r_name r))
                         (getManualProjects (loaded fr))))))
    \<and> url (manualProject (getUsername (loaded fr)) e) = e_url e
    \<and> \<not> isAutoDiscovered (manualProject (getUsername (loaded fr)) e)
    \<and> (truthy (e_url p) \<longrightarrow> url (manualProject user (normalizeProject p)) = e_url p)"
proof -
  let ?st = "loaded fr" and ?u = "getUsername (loaded fr)"
  let ?P = "\<lambda>e'. e_repo e' = JStr (r_name r)"
  have "e \<in> set (filter (\<lambda>e'. ?P e' \<and> e_url e' \<noteq> JNull) (Config_getProjects ?st))"
    by (simp only: assms list.set_intros)
  then have e: "e \<in> set (Config_getProjects ?st)" "e_repo e = JStr (r_name r)" "e_url e \<noteq> JNull"
    by simp_all
  have k: "\<not> keptRepo ?st r'" if "r_name r' = r_name r" for r'
    using e that by (auto simp: keptRepo_loaded)
  have 1: "\<not> keptRepo ?st r" using k by simp
  have 2: "\<forall>r'\<in>set (filter (keptRepo ?st) (filterPagesEnabled repos)). r_name r' \<noteq> r_name r"
    using k by auto
  have 3: "\<exists>out. getProjects lc ?st (Inr repos) = Inr out"
    using mergeWithConfig_defined by (simp add: getProjects_Inr)
  have m: "filter ?P (getManualProjects ?st) = [e]"
    using assms by (simp add: getManualProjects_loaded conj_commute)
  have "mset (getManualProjects ?st)
          = mset (filter ?P (getManualProjects ?st))
            + mset (filter (\<lambda>e'. \<not> ?P e') (getManualProjects ?st))"
    by (simp only: mset_filter) (rule multiset_partition)
  then have "mset (getManualProjects ?st)
          = add_mset e (mset (filter (\<lambda>e'. \<not> ?P e') (getManualProjects ?st)))"
    by (simp only: m) simp
  then have "image_mset (manualProject ?u) (mset (getManualProjects ?st))
          = image_mset (manualProject ?u)
              (add_mset e (mset (filter (\<lambda>e'. \<not> ?P e') (getManualProjects ?st))))"
    by (rule arg_cong)
  then have man: "mset (manualProjects ?st ?u)
          = add_mset (manualProject ?u e)
              (mset (map (manualProject ?u) (filter (\<lambda>e'. \<not> ?P e') (getManualProjects ?st))))"
    by (simp add: manualProjects_def)
  have 4: "mset out
            = add_mset (manualProject ?u e)
                (mset (autoProjects ?st ?u (filterPagesEnabled repos))
                 + mset (map (manualProject ?u)
                      (filter (\<lambda>e'. e_repo e' \<noteq> JStr (r_name r)) (getManualProjects ?st))))"
    if "getProjects lc ?st (Inr repos) = Inr out" for out
  proof -
    have "mergeWithConfig lc ?st (filterPagesEnabled repos) ?u = Inr out"
      using that by (simp only: getProjects_Inr)
    from mergeWithConfig_mset[OF this] show ?thesis by (simp add: man)
  qed
  have 5: "url (manualProject ?u e) = e_url e" by (simp add: manualProject_def)
  have 6: "\<not> isAutoDiscovered (manualProject ?u e)" by (rule manualProject_flag)
  have 7: "truthy (e_url p) \<longrightarrow> url (manualProject user (normalizeProject p)) = e_url p"
    by (simp add: manualProject_def normalizeProject_keeps_url)
  from 1 2 3 4 5 6 7 show ?thesis by blast
qed


theorem custom_url_repo_once_witness:
  "filter (\<lambda>e'. e_repo e' = JStr (r_name (aliceRepo ''moved'' True)) \<and> e_url e' \<noteq> JNull)
     (Config_getProjects (loaded (yamlFile ''alice'' [] []
        [yamlEntry (JStr ''moved'') JUndefined JUndefined (JStr ''https://example.com'') JUndefined])))
     = [normalizeProject
          (yamlEntry (JStr ''moved'') JUndefined JUndefined (JStr ''https://example.com'') JUndefined)]
   \<and> \<not> keptRepo (loaded (yamlFile ''alice'' [] []
        [yamlEntry (JStr ''moved'') JUndefined JUndefined (JStr ''https://example.com'') JUndefined]))
        (aliceRepo ''moved'' True)
   \<and> getProjects codeUnitCompare
        (loaded (yamlFile ''alice'' [] []
          [yamlEntry (JStr ''moved'') JUndefined JUndefined (JStr ''https://example.com'') JUndefined]))
        (Inr [aliceRepo ''moved'' True, aliceRepo ''kept'' True])
      = Inr [\<lparr> name = JStr ''kept'', description = JStr ''orig'',
                url = JStr ''https://alice.github.io/kept/'',
                repoUrl = JStr ''https://github.com/alice/kept'',
                thumbnail = JNull, isAutoDiscovered = True \<rparr>,
             \<lparr> name = JStr ''moved'', description = JStr [],
                url = JStr ''https://example.com'', repoUrl = JNull,
                thumbnail = JNull, isAutoDiscovered = False \<rparr>]
   \<and> truthy (e_url (yamlEntry (JStr ''moved'') JUndefined JUndefined
                      (JStr ''https://example.com'') JUndefined))
   \<and> url (manualProject ''alice'' (normalizeProject
             (yamlEntry (JStr ''moved'') JUndefined JUndefined
                (JStr ''https://example.com'') JUndefined)))
       = JStr ''https://example.com''"
  using custom_url_repo_once[of "aliceRepo ''moved'' True"
      "yamlFile ''alice'' [] []
        [yamlEntry (JStr ''moved'') JUndefined JUndefined (JStr ''https://example.com'') JUndefined]"
      "normalizeProject
          (yamlEntry (JStr ''moved'') JUndefined JUndefined (JStr ''https://example.com'') JUndefined)"
      "[aliceRepo ''moved'' True, aliceRepo ''kept'' True]" codeUnitCompare
      "yamlEntry (JStr ''moved'') JUndefined JUndefined (JStr ''https://example.com'') JUndefined"
      "''alice''"]
  by (simp add: eval_defs)

theorem custom_url_repo_once_counterexample:
  "r_has_pages (aliceRepo ''x'' True)
   \<and> getProjects codeUnitCompare
      (loaded (yamlFile ''alice'' [] []
         [yamlEntry (JStr ''x'') JUndefined JUndefined (JStr ''https://one.example'') JUndefined,
          yamlEntry (JStr ''x'') JUndefined JUndefined (JStr ''https://two.example'') JUndefined]))
      (Inr [aliceRepo ''x'' True])
    = Inr [\<lparr> name = JStr ''x'', description = JStr [],
              url = JStr ''https://one.example'', repoUrl = JNull,
              thumbnail = JNull, isAutoDiscovered = False \<rparr>,
           \<lparr> name = JStr ''x'', description = JStr [],
              url = JStr ''https://two.example'', repoUrl = JNull,
              thumbnail = JNull, isAutoDiscovered = False \<rparr>]
   \<and> length (projr (getProjects codeUnitCompare
      (loaded (yamlFile ''alice'' [] []
         [yamlEntry (JStr ''x'') JUndefined JUndefined (JStr ''https://one.example'') JUndefined,
          yamlEntry (JStr ''x'') JUndefined JUndefined (JStr ''https://two.example'') JUndefined]))
      (Inr [aliceRepo ''x'' True]))) \<noteq> 1"
  by (simp add: eval_defs)

section \<open>Ordering of the output\<close>

text \<open>
  C7. For a collation \<open>lc\<close> that is a total preorder, the output of \<open>getProjects\<close> is
  sorted in three tiers: of two projects whose names are both in \<open>order\<close>, the one with
  the smaller index comes first; a project whose name is in \<open>order\<close> comes before every
  project whose name is not; two projects whose names are not in \<open>order\<close> are in the
  order of \<open>localeCompare\<close>. With an empty \<open>order\<close> the whole output is in the order of
  \<open>localeCompare\<close> on the names.
\<close>

theorem output_three_tier_order:
  assumes tot: "\<forall>x y. 0 < lc x y \<longrightarrow> lc y x \<le> 0"
    and tr: "\<forall>x y z. lc x y \<le> 0 \<and> lc y z \<le> 0 \<longrightarrow> lc x z \<le> 0"
  shows "(\<exists>out. getProjects lc (loaded fr) (Inr repos) = Inr out)
    \<and> (\<forall>out. getProjects lc (loaded fr) (Inr repos) = Inr out \<longrightarrow>
         sorted_wrt (\<lambda>a b. \<exists>na nb. name a = JStr na \<and> name b = JStr nb
              \<and> (na \<in> set (getOrder (loaded fr)) \<and> nb \<in> set (getOrder (loaded fr))
                   \<longrightarrow> indexOf (getOrder (loaded fr)) na \<le> indexOf (getOrder (loaded fr)) nb)
              \<and> (nb \<in> set (getOrder (loaded fr)) \<longrightarrow> na \<in> set (getOrder (loaded fr)))
              \<and> (na \<notin> set (getOrder (loaded fr)) \<and> nb \<notin> set (getOrder (loaded fr))
                   \<longrightarrow> lc na nb \<le> 0)) out
         \<and> (getOrder (loaded fr) = [] \<longrightarrow>
              sorted_wrt (\<lambda>a b. \<exists>na nb. name a = JStr na \<and> name b = JStr nb \<and> lc na nb \<le> 0) out))"
proof -
  let ?st = "loaded fr" and ?u = "getUsername (loaded fr)"
  let ?ord = "getOrder (loaded fr)"
  let ?ps = "autoProjects ?st ?u (filterPagesEnabled repos) @ manualProjects ?st ?u"
  let ?T = "\<lambda>a b. \<exists>na nb. name a = JStr na \<and> name b = JStr nb
              \<and> (na \<in> set ?ord \<and> nb \<in> set ?ord \<longrightarrow> indexOf ?ord na \<le> indexOf ?ord nb)
              \<and> (nb \<in> set ?ord \<longrightarrow> na \<in> set ?ord)
              \<and> (na \<notin> set ?ord \<and> nb \<notin> set ?ord \<longrightarrow> lc na nb \<le> 0)"
  let ?A = "\<lambda>a b. \<exists>na nb. name a = JStr na \<and> name b = JStr nb \<and> lc na nb \<le> 0"
  have names: "\<And>p. p \<in> set ?ps \<Longrightarrow> \<exists>s. name p = JStr s"
    by (rule merged_names)
  have 1: "\<exists>out. getProjects lc ?st (Inr repos) = Inr out"
    using mergeWithConfig_defined by (simp add: getProjects_Inr)
  have 2: "sorted_wrt ?T out \<and> (?ord = [] \<longrightarrow> sorted_wrt ?A out)"
    if out: "getProjects lc ?st (Inr repos) = Inr out" for out
  proof (cases "?ord = []")
    case True
    then have "sortBy (compareAlpha lc) ?ps = Inr out"
      using out by (simp add: getProjects_Inr mergeWithConfig_def Let_def)
    then have a: "sorted_wrt ?A out"
      by (rule sortBy_compareAlpha_sorted[OF tot tr names, rotated]) simp
    have "sorted_wrt ?T out"
      by (rule sorted_wrt_mono_rel[OF _ a]) (simp add: True)
    then show ?thesis using a by simp
  next
    case False
    then have "sortBy (compareOrdered lc ?ord) ?ps = Inr out"
      using out by (simp add: getProjects_Inr mergeWithConfig_def Let_def)
    then have "sorted_wrt ?T out"
      by (rule sortBy_compareOrdered_sorted[OF tot tr names, rotated]) simp
    then show ?thesis using False by simp
  qed
  from 1 2 show ?thesis by blast
qed


theorem output_three_tier_order_witness:
  "map name (projr (getProjects codeUnitCompare (loaded (yamlFile ''alice'' [] [''b'', ''a''] []))
        (Inr [aliceRepo ''d'' True, aliceRepo ''a'' True, aliceRepo ''c'' True, aliceRepo ''b'' True])))
      = [JStr ''b'', JStr ''a'', JStr ''c'', JStr ''d'']
   \<and> sorted_wrt (\<lambda>a b. \<exists>na nb. name a = JStr na \<and> name b = JStr nb
              \<and> (na \<in> set [''b'', ''a''] \<and> nb \<in> set [''b'', ''a'']
                   \<longrightarrow> indexOf [''b'', ''a''] na \<le> indexOf [''b'', ''a''] nb)
              \<and> (nb \<in> set [''b'', ''a''] \<longrightarrow> na \<in> set [''b'', ''a''])
              \<and> (na \<notin> set [''b'', ''a''] \<and> nb \<notin> set [''b'', ''a'']
                   \<longrightarrow> codeUnitCompare na nb \<le> 0))
        (projr (getProjects codeUnitCompare (loaded (yamlFile ''alice'' [] [''b'', ''a''] []))
        (Inr [aliceRepo ''d'' True, aliceRepo ''a'' True, aliceRepo ''c'' True, aliceRepo ''b'' True])))
   \<and> map name (projr (getProjects codeUnitCompare (loaded (yamlFile ''alice'' [] [] []))
        (Inr [aliceRepo ''d'' True, aliceRepo ''a'' True, aliceRepo ''c'' True, aliceRepo ''b'' True])))
      = [JStr ''a'', JStr ''b'', JStr ''c'', JStr ''d'']"
proof -
  let ?F = "yamlFile ''alice'' [] [''b'', ''a''] []"
  let ?R = "[aliceRepo ''d'' True, aliceRepo ''a'' True, aliceRepo ''c'' True, aliceRepo ''b'' True]"
  have t: "\<forall>x y. 0 < codeUnitCompare x y \<longrightarrow> codeUnitCompare y x \<le> 0"
    using codeUnitCompare_total by blast
  have r: "\<forall>x y z. codeUnitCompare x y \<le> 0 \<and> codeUnitCompare y z \<le> 0 \<longrightarrow> codeUnitCompare x z \<le> 0"
    using codeUnitCompare_trans by blast
  have o: "getOrder (loaded ?F) = [''b'', ''a'']"
    by (simp add: eval_defs)
  obtain out where out: "getProjects codeUnitCompare (loaded ?F) (Inr ?R) = Inr out"
    using output_three_tier_order[OF t r, of ?F ?R] by blast
  have s: "sorted_wrt (\<lambda>a b. \<exists>na nb. name a = JStr na \<and> name b = JStr nb
              \<and> (na \<in> set [''b'', ''a''] \<and> nb \<in> set [''b'', ''a'']
                   \<longrightarrow> indexOf [''b'', ''a''] na \<le> indexOf [''b'', ''a''] nb)
              \<and> (nb \<in> set [''b'', ''a''] \<longrightarrow> na \<in> set [''b'', ''a''])
              \<and> (na \<notin> set [''b'', ''a''] \<and> nb \<notin> set [''b'', ''a'']
                   \<longrightarrow> codeUnitCompare na nb \<le> 0)) out"
    using output_three_tier_order[OF t r, of ?F ?R] out by (simp only: o)
  have e1: "map name (projr (getProjects codeUnitCompare (loaded ?F) (Inr ?R)))
      = [JStr ''b'', JStr ''a'', JStr ''c'', JStr ''d'']"
    by (simp add: eval_defs)
  have e2: "map name (projr (getProjects codeUnitCompare (loaded (yamlFile ''alice'' [] [] []))
        (Inr ?R))) = [JStr ''a'', JStr ''b'', JStr ''c'', JStr ''d'']"
    by (simp add: eval_defs)
  have p: "projr (getProjects codeUnitCompare (loaded ?F) (Inr ?R)) = out"
    by (simp only: out sum.sel)
  have s': "sorted_wrt (\<lambda>a b. \<exists>na nb. name a = JStr na \<and> name b = JStr nb
              \<and> (na \<in> set [''b'', ''a''] \<and> nb \<in> set [''b'', ''a'']
                   \<longrightarrow> indexOf [''b'', ''a''] na \<le> indexOf [''b'', ''a''] nb)
              \<and> (nb \<in> set [''b'', ''a''] \<longrightarrow> na \<in> set [''b'', ''a''])
              \<and> (na \<notin> set [''b'', ''a''] \<and> nb \<notin> set [''b'', ''a'']
                   \<longrightarrow> codeUnitCompare na nb \<le> 0))
        (projr (getProjects codeUnitCompare (loaded ?F) (Inr ?R)))"
    using s by (simp only: p)
  show ?thesis
    by (intro conjI) (rule e1, rule s', rule e2)
qed

end
